theory Spec2Isabelle
  imports Complex_Main
begin

section \<open>Tensors over a heap of storages\<close>

text \<open>
  The notebook \<^verbatim>\<open>Pytorch/Extending_torch_autograd.ipynb\<close> defines two custom autograd
  functions, \<^verbatim>\<open>LinearFunction\<close> and \<^verbatim>\<open>MulConstant\<close> (the latter in a plain and in an
  optimised variant). Their bodies call tensor primitives of the library
  (\<^verbatim>\<open>mm\<close>, \<^verbatim>\<open>t\<close>, \<^verbatim>\<open>unsqueeze\<close>, \<^verbatim>\<open>expand_as\<close>, \<^verbatim>\<open>+=\<close>, \<^verbatim>\<open>sum\<close>, \<^verbatim>\<open>*\<close>).

  A tensor is a handle (storage address, offset, sizes, strides) into a heap of flat
  storages, as in the library: \<^verbatim>\<open>t\<close>, \<^verbatim>\<open>unsqueeze\<close> and \<^verbatim>\<open>expand_as\<close> return views that share
  the storage of their argument, \<^verbatim>\<open>mm\<close>, \<^verbatim>\<open>sum\<close> and \<^verbatim>\<open>*\<close> allocate a fresh storage, and
  \<^verbatim>\<open>+=\<close> writes into the storage of its left operand. Element arithmetic is the exact
  arithmetic of a semiring; rounding of machine floats is not part of the model.
\<close>

datatype error = RuntimeError | TypeError | IndexError | ValueError | AttributeError

type_synonym 'a heap = "'a list list"

record tensor =
  storage :: nat
  offset :: nat
  sizes :: "nat list"
  strides :: "nat list"

text \<open>All index tuples of a shape, in row-major order.\<close>

definition indices :: "nat list \<Rightarrow> nat list list" where
  "indices szs = product_lists (map (\<lambda>n. [0..<n]) szs)"

definition pos :: "tensor \<Rightarrow> nat list \<Rightarrow> nat" where
  "pos t idx = offset t + sum_list (map2 (*) idx (strides t))"

definition get :: "'a heap \<Rightarrow> tensor \<Rightarrow> nat list \<Rightarrow> 'a" where
  "get h t idx = h ! storage t ! pos t idx"

text \<open>
  A handle is valid in a heap when its storage is allocated and every index tuple of its
  shape addresses an element of that storage. Every tensor the library hands out is valid.
\<close>

definition valid :: "'a heap \<Rightarrow> tensor \<Rightarrow> bool" where
  "valid h t \<longleftrightarrow>
     storage t < length h \<and> length (strides t) = length (sizes t) \<and>
     (\<forall>idx \<in> set (indices (sizes t)). pos t idx < length (h ! storage t))"

fun contiguous_strides :: "nat list \<Rightarrow> nat list" where
  "contiguous_strides [] = []"
| "contiguous_strides (n # ns) = prod_list (map (max 1) ns) # contiguous_strides ns"

text \<open>The position of an index tuple in a contiguous storage of the given shape.\<close>

definition cpos :: "nat list \<Rightarrow> nat list \<Rightarrow> nat" where
  "cpos szs idx = sum_list (map2 (*) idx (contiguous_strides szs))"

text \<open>Allocation: a fresh contiguous storage at the next free address, filled element-wise.\<close>

definition new_tensor :: "nat list \<Rightarrow> (nat list \<Rightarrow> 'a) \<Rightarrow> 'a heap \<Rightarrow> tensor \<times> 'a heap" where
  "new_tensor szs f h =
     (\<lparr>storage = length h, offset = 0, sizes = szs, strides = contiguous_strides szs\<rparr>,
      h @ [map f (indices szs)])"

subsection \<open>The tensor primitives the notebook calls\<close>

text \<open>\<^verbatim>\<open>x.t()\<close>: a view with both dimensions swapped; tensors of more than two dimensions are refused.\<close>

definition tensor_t :: "tensor \<Rightarrow> error + tensor" where
  "tensor_t x =
     (if length (sizes x) \<le> 1 then Inr x
      else if length (sizes x) = 2
      then Inr (x\<lparr>sizes := rev (sizes x), strides := rev (strides x)\<rparr>)
      else Inl RuntimeError)"

text \<open>\<^verbatim>\<open>a.mm(b)\<close>: the matrix product of two 2-D tensors whose inner sizes agree, freshly allocated.\<close>

definition mm :: "tensor \<Rightarrow> tensor \<Rightarrow> 'a::semiring_0 heap \<Rightarrow> error + tensor \<times> 'a heap" where
  "mm a b h =
     (if length (sizes a) = 2 \<and> length (sizes b) = 2 \<and> sizes a ! 1 = sizes b ! 0
      then Inr (new_tensor [sizes a ! 0, sizes b ! 1]
                  (\<lambda>idx. \<Sum>l\<leftarrow>[0..<sizes a ! 1]. get h a [idx ! 0, l] * get h b [l, idx ! 1]) h)
      else Inl RuntimeError)"

text \<open>\<^verbatim>\<open>x.unsqueeze(d)\<close>: a view with a dimension of size 1 inserted at position \<open>d\<close>.\<close>

definition unsqueeze :: "tensor \<Rightarrow> nat \<Rightarrow> error + tensor" where
  "unsqueeze x d =
     (if d \<le> length (sizes x)
      then Inr (x\<lparr>sizes := take d (sizes x) @ [1] @ drop d (sizes x),
                  strides := take d (strides x) @
                    [if d < length (sizes x) then sizes x ! d * strides x ! d else 1] @
                    drop d (strides x)\<rparr>)
      else Inl IndexError)"

text \<open>
  Expansion to a target shape, on reversed size and stride lists (trailing dimensions are
  aligned): a dimension of the same size keeps its stride, a dimension of size 1 is repeated
  with stride 0, new leading dimensions have stride 0, anything else is refused.
\<close>

fun expand_strides :: "nat list \<Rightarrow> nat list \<Rightarrow> nat list \<Rightarrow> error + nat list" where
  "expand_strides [] ss tgt = Inr (replicate (length tgt) 0)"
| "expand_strides (n # ns) ss [] = Inl RuntimeError"
| "expand_strides (n # ns) ss (m # ms) =
     (if n = m \<or> n = 1
      then (case expand_strides ns (tl ss) ms of
              Inl e \<Rightarrow> Inl e
            | Inr r \<Rightarrow> Inr ((if n = m then hd ss else 0) # r))
      else Inl RuntimeError)"

definition expand :: "tensor \<Rightarrow> nat list \<Rightarrow> error + tensor" where
  "expand x szs =
     (case expand_strides (rev (sizes x)) (rev (strides x)) (rev szs) of
        Inl e \<Rightarrow> Inl e
      | Inr r \<Rightarrow> Inr (x\<lparr>sizes := szs, strides := rev r\<rparr>))"

definition expand_as :: "tensor \<Rightarrow> tensor \<Rightarrow> error + tensor" where
  "expand_as x other = expand x (sizes other)"

text \<open>
  \<^verbatim>\<open>self += other\<close>: \<open>other\<close> is broadcast to the shape of \<open>self\<close> and added element by
  element into the storage of \<open>self\<close>; no storage is allocated. The elements of \<open>other\<close> are
  read from the heap as it was before the operation. (The library refuses to write through
  a view whose elements overlap; the notebook only writes into a tensor it has just
  allocated, and that refusal is not modelled.)
\<close>

definition tensor_iadd :: "tensor \<Rightarrow> tensor \<Rightarrow> 'a::semiring_0 heap \<Rightarrow> error + 'a heap" where
  "tensor_iadd self other h =
     (case expand other (sizes self) of
        Inl e \<Rightarrow> Inl e
      | Inr src \<Rightarrow>
          Inr (h[storage self :=
                 fold (\<lambda>idx st. st[pos self idx := st ! pos self idx + get h src idx])
                   (indices (sizes self)) (h ! storage self)]))"

text \<open>\<^verbatim>\<open>x.sum(0)\<close>: the sum over the first dimension, freshly allocated; a 0-D tensor is copied.\<close>

definition tensor_sum :: "tensor \<Rightarrow> 'a::semiring_0 heap \<Rightarrow> tensor \<times> 'a heap" where
  "tensor_sum x h =
     (case sizes x of
        [] \<Rightarrow> new_tensor [] (\<lambda>idx. get h x []) h
      | n # ns \<Rightarrow> new_tensor ns (\<lambda>idx. \<Sum>i\<leftarrow>[0..<n]. get h x (i # idx)) h)"

text \<open>\<^verbatim>\<open>x * c\<close> for a number \<open>c\<close>: every element scaled, freshly allocated.\<close>

definition tensor_mul :: "tensor \<Rightarrow> 'a \<Rightarrow> 'a::semiring_0 heap \<Rightarrow> tensor \<times> 'a heap" where
  "tensor_mul x c h = new_tensor (sizes x) (\<lambda>idx. get h x idx * c) h"

section \<open>The context object and the two custom functions\<close>

text \<open>
  The context carries what \<^verbatim>\<open>forward\<close> leaves for \<^verbatim>\<open>backward\<close>: the tuple given to
  \<^verbatim>\<open>save_for_backward\<close>, the tuple \<^verbatim>\<open>needs_input_grad\<close> (one flag per argument that was
  passed to \<^verbatim>\<open>apply\<close>), the attribute \<^verbatim>\<open>constant\<close> (field \<open>ctx_constant\<close>, absent until it is assigned), the flag
  set by \<^verbatim>\<open>set_materialize_grads\<close> (true by default) and the tensors declared by
  \<^verbatim>\<open>mark_dirty\<close>.
\<close>

record 'a ctx =
  saved_tensors :: "tensor option list"
  needs_input_grad :: "bool list"
  ctx_constant :: "'a option"
  materialize_grads :: bool
  dirty_tensors :: "tensor list"

definition ebind :: "error + 'b \<Rightarrow> ('b \<Rightarrow> error + 'c) \<Rightarrow> error + 'c" where
  "ebind m f = (case m of Inl e \<Rightarrow> Inl e | Inr x \<Rightarrow> f x)"

text \<open>Indexing a tuple: out of range raises \<^verbatim>\<open>IndexError\<close>.\<close>

definition tuple_index :: "'b list \<Rightarrow> nat \<Rightarrow> error + 'b" where
  "tuple_index xs i = (if i < length xs then Inr (xs ! i) else Inl IndexError)"

text \<open>Passing \<^verbatim>\<open>None\<close> where a tensor primitive expects a tensor raises \<^verbatim>\<open>TypeError\<close>.\<close>

definition as_tensor :: "tensor option \<Rightarrow> error + tensor" where
  "as_tensor x = (case x of None \<Rightarrow> Inl TypeError | Some t \<Rightarrow> Inr t)"

subsection \<open>LinearFunction\<close>

text \<open>
  \<^verbatim>\<open>
  def forward(ctx, input, weight, bias=None):
      ctx.save_for_backward(input, weight, bias)
      output = input.mm(weight.t())
      if bias is not None:
          output += bias.unsqueeze(0).expand_as(output)
      return output
  \<close>
\<close>

definition LinearFunction_forward ::
  "'a ctx \<Rightarrow> tensor \<Rightarrow> tensor \<Rightarrow> tensor option \<Rightarrow> 'a::semiring_0 heap
     \<Rightarrow> error + 'a ctx \<times> tensor \<times> 'a heap" where
  "LinearFunction_forward ctx input weight bias h =
     (let ctx1 = ctx\<lparr>saved_tensors := [Some input, Some weight, bias]\<rparr> in
      ebind (tensor_t weight) (\<lambda>wt.
      ebind (mm input wt h) (\<lambda>(output, h1).
      case bias of
        None \<Rightarrow> Inr (ctx1, output, h1)
      | Some b \<Rightarrow>
          ebind (unsqueeze b 0) (\<lambda>b1.
          ebind (expand_as b1 output) (\<lambda>b2.
          ebind (tensor_iadd output b2 h1) (\<lambda>h2.
          Inr (ctx1, output, h2)))))))"

text \<open>
  \<^verbatim>\<open>
  def backward(ctx, grad_output):
      input, weight, bias = ctx.saved_tensors
      grad_input = grad_weight = grad_bias = None
      if ctx.needs_input_grad[0]:
          grad_input = grad_output.mm(weight)
      if ctx.needs_input_grad[1]:
          grad_weight = grad_output.t().mm(input)
      if bias is not None and ctx.needs_input_grad[2]:
          grad_bias = grad_output.sum(0)
      return grad_input, grad_weight, grad_bias
  \<close>
  \<^verbatim>\<open>LinearFunction\<close> leaves gradient materialisation on, so \<^verbatim>\<open>grad_output\<close> is a tensor.
  The returned tuple is a list of optional tensors, \<open>None\<close> for Python's \<^verbatim>\<open>None\<close>. Unpacking
  a tuple that has not exactly three components raises \<^verbatim>\<open>ValueError\<close>; the conjunction in
  the third test does not index \<^verbatim>\<open>needs_input_grad\<close> when the bias is \<^verbatim>\<open>None\<close>.
\<close>

text \<open>The three conditional assignments, each returning the gradient it leaves and the heap.\<close>

definition grad_input_stmt ::
  "'a ctx \<Rightarrow> tensor \<Rightarrow> tensor option \<Rightarrow> 'a::semiring_0 heap \<Rightarrow> error + tensor option \<times> 'a heap" where
  "grad_input_stmt ctx grad_output weight h =
     ebind (tuple_index (needs_input_grad ctx) 0) (\<lambda>n0.
     if n0
     then ebind (as_tensor weight) (\<lambda>w.
          ebind (mm grad_output w h) (\<lambda>(g, h1). Inr (Some g, h1)))
     else Inr (None, h))"

definition grad_weight_stmt ::
  "'a ctx \<Rightarrow> tensor \<Rightarrow> tensor option \<Rightarrow> 'a::semiring_0 heap \<Rightarrow> error + tensor option \<times> 'a heap" where
  "grad_weight_stmt ctx grad_output input h =
     ebind (tuple_index (needs_input_grad ctx) 1) (\<lambda>n1.
     if n1
     then ebind (tensor_t grad_output) (\<lambda>gt.
          ebind (as_tensor input) (\<lambda>i.
          ebind (mm gt i h) (\<lambda>(g, h1). Inr (Some g, h1))))
     else Inr (None, h))"

definition grad_bias_stmt ::
  "'a ctx \<Rightarrow> tensor \<Rightarrow> tensor option \<Rightarrow> 'a::semiring_0 heap \<Rightarrow> error + tensor option \<times> 'a heap" where
  "grad_bias_stmt ctx grad_output bias h =
     ebind (if bias = None then Inr False else tuple_index (needs_input_grad ctx) 2) (\<lambda>n2.
     if n2
     then (case tensor_sum grad_output h of (g, h1) \<Rightarrow> Inr (Some g, h1))
     else Inr (None, h))"

definition LinearFunction_backward ::
  "'a ctx \<Rightarrow> tensor \<Rightarrow> 'a::semiring_0 heap \<Rightarrow> error + tensor option list \<times> 'a heap" where
  "LinearFunction_backward ctx grad_output h =
     (case saved_tensors ctx of
        [input, weight, bias] \<Rightarrow>
          ebind (grad_input_stmt ctx grad_output weight h) (\<lambda>(grad_input, h1).
          ebind (grad_weight_stmt ctx grad_output input h1) (\<lambda>(grad_weight, h2).
          ebind (grad_bias_stmt ctx grad_output bias h2) (\<lambda>(grad_bias, h3).
          Inr ([grad_input, grad_weight, grad_bias], h3))))
      | _ \<Rightarrow> Inl ValueError)"

subsection \<open>MulConstant\<close>

text \<open>
  The plain variant (the notebook defines it twice, with the same body):
  \<^verbatim>\<open>
  def forward(ctx, tensor, constant):
      ctx.constant = constant
      return tensor * constant

  def backward(ctx, grad_output):
      return grad_output * ctx.constant, None
  \<close>
  Reading an attribute that was never assigned raises \<^verbatim>\<open>AttributeError\<close>; multiplying
  \<^verbatim>\<open>None\<close> by a number raises \<^verbatim>\<open>TypeError\<close>.
\<close>

definition MulConstant_forward ::
  "'a ctx \<Rightarrow> tensor \<Rightarrow> 'a \<Rightarrow> 'a::semiring_0 heap \<Rightarrow> 'a ctx \<times> tensor \<times> 'a heap" where
  "MulConstant_forward ctx tensor c h =
     (let ctx1 = ctx\<lparr>ctx_constant := Some c\<rparr> in
      case tensor_mul tensor c h of (output, h1) \<Rightarrow> (ctx1, output, h1))"

definition MulConstant_backward ::
  "'a ctx \<Rightarrow> tensor option \<Rightarrow> 'a::semiring_0 heap \<Rightarrow> error + tensor option list \<times> 'a heap" where
  "MulConstant_backward ctx grad_output h =
     (case ctx_constant ctx of
        None \<Rightarrow> Inl AttributeError
      | Some c \<Rightarrow>
          (case grad_output of
             None \<Rightarrow> Inl TypeError
           | Some g \<Rightarrow> (case tensor_mul g c h of (r, h1) \<Rightarrow> Inr ([Some r, None], h1))))"

text \<open>
  The optimised variant:
  \<^verbatim>\<open>
  def forward(ctx, tensor, constant):
      ctx.set_materialize_grads(False)
      ctx.constant = constant
      return tensor * constant

  def backward(ctx, grad_output):
      if grad_output is None:
          return None, None
      return grad_output * ctx.constant, None
  \<close>
\<close>

definition MulConstant_opt_forward ::
  "'a ctx \<Rightarrow> tensor \<Rightarrow> 'a \<Rightarrow> 'a::semiring_0 heap \<Rightarrow> 'a ctx \<times> tensor \<times> 'a heap" where
  "MulConstant_opt_forward ctx tensor c h =
     (let ctx1 = ctx\<lparr>materialize_grads := False\<rparr>;
          ctx2 = ctx1\<lparr>ctx_constant := Some c\<rparr> in
      case tensor_mul tensor c h of (output, h1) \<Rightarrow> (ctx2, output, h1))"

definition MulConstant_opt_backward ::
  "'a ctx \<Rightarrow> tensor option \<Rightarrow> 'a::semiring_0 heap \<Rightarrow> error + tensor option list \<times> 'a heap" where
  "MulConstant_opt_backward ctx grad_output h =
     (case grad_output of
        None \<Rightarrow> Inr ([None, None], h)
      | Some g \<Rightarrow>
          (case ctx_constant ctx of
             None \<Rightarrow> Inl AttributeError
           | Some c \<Rightarrow> (case tensor_mul g c h of (r, h1) \<Rightarrow> Inr ([Some r, None], h1))))"

section \<open>Gradient checking\<close>










section \<open>A concrete invocation\<close>

text \<open>
  A heap over the integers with a 2\<times>2 input, a 3\<times>2 weight, a bias of length 3 and a
  2\<times>3 upstream gradient, used to run the functions on.
\<close>

definition ex_heap :: "int heap" where
  "ex_heap = [[1, 2, 3, 4], [1, 0, 0, 1, 1, 1], [10, 20, 30], [1, 1, 1, 1, 1, 1]]"


definition ex_input :: tensor where
  "ex_input = \<lparr>storage = 0, offset = 0, sizes = [2, 2], strides = [2, 1]\<rparr>"

definition ex_weight :: tensor where
  "ex_weight = \<lparr>storage = 1, offset = 0, sizes = [3, 2], strides = [2, 1]\<rparr>"

definition ex_bias :: tensor where
  "ex_bias = \<lparr>storage = 2, offset = 0, sizes = [3], strides = [1]\<rparr>"

definition ex_grad :: tensor where
  "ex_grad = \<lparr>storage = 3, offset = 0, sizes = [2, 3], strides = [3, 1]\<rparr>"

definition ex_ctx :: "int ctx" where
  "ex_ctx = \<lparr>saved_tensors = [], needs_input_grad = [True, True, True],
     ctx_constant = None, materialize_grads = True, dirty_tensors = []\<rparr>"

text \<open>What \<^verbatim>\<open>forward\<close> and \<^verbatim>\<open>backward\<close> of \<^verbatim>\<open>LinearFunction\<close> produce on it.\<close>

definition ex_ctx1 :: "int ctx" where
  "ex_ctx1 = ex_ctx\<lparr>saved_tensors := [Some ex_input, Some ex_weight, Some ex_bias]\<rparr>"

definition ex_out :: tensor where
  "ex_out = \<lparr>storage = 4, offset = 0, sizes = [2, 3], strides = [3, 1]\<rparr>"

definition ex_heap1 :: "int heap" where
  "ex_heap1 = ex_heap @ [[11, 22, 33, 13, 24, 37]]"

definition ex_grads :: "tensor option list" where
  "ex_grads =
     [Some \<lparr>storage = 5, offset = 0, sizes = [2, 2], strides = [2, 1]\<rparr>,
      Some \<lparr>storage = 6, offset = 0, sizes = [3, 2], strides = [2, 1]\<rparr>,
      Some \<lparr>storage = 7, offset = 0, sizes = [3], strides = [1]\<rparr>]"

definition ex_heap2 :: "int heap" where
  "ex_heap2 = ex_heap1 @ [[2, 2, 2, 2], [4, 6, 4, 6, 4, 6], [2, 2, 2]]"

text \<open>The same call without a bias, with one flag per argument passed.\<close>

definition ex_ctx_nb :: "int ctx" where
  "ex_ctx_nb = ex_ctx\<lparr>saved_tensors := [Some ex_input, Some ex_weight, None],
     needs_input_grad := [True, True]\<rparr>"

definition ex_heap_nb :: "int heap" where
  "ex_heap_nb = ex_heap @ [[1, 2, 3, 3, 4, 7]]"

section \<open>Index tuples and contiguous storages\<close>

lemma length_indices: "length (indices szs) = prod_list szs"
  unfolding indices_def
  by (induction szs) (simp_all add: length_concat comp_def sum_list_triv)

lemma indices_Nil: "indices [] = [[]]"
  by (simp add: indices_def)

lemma indices_Cons:
  "indices (n # ns) = concat (map (\<lambda>i. map ((#) i) (indices ns)) [0..<n])"
  by (simp add: indices_def)

lemma set_indices_Cons:
  "idx \<in> set (indices (n # ns)) \<longleftrightarrow> (\<exists>i r. idx = i # r \<and> i < n \<and> r \<in> set (indices ns))"
  by (auto simp: indices_Cons)

lemma length_concat_uniform:
  "(\<And>i. i < n \<Longrightarrow> length (g i) = L) \<Longrightarrow> length (concat (map g [0..<n])) = n * L"
  by (induction n) simp_all

lemma nth_concat_uniform:
  assumes "\<And>i. i < n \<Longrightarrow> length (g i) = L" "i < n" "p < L"
  shows "concat (map g [0..<n]) ! (i * L + p) = g i ! p"
  using assms
proof (induction n)
  case 0
  then show ?case by simp
next
  case (Suc n)
  have len: "length (concat (map g [0..<n])) = n * L"
    using Suc.prems(1) by (simp add: length_concat_uniform)
  show ?case
  proof (cases "i < n")
    case True
    have "i * L + p < Suc i * L"
      using Suc.prems(3) by simp
    also have "\<dots> \<le> n * L"
      using True by (intro mult_le_mono1) simp
    finally have "i * L + p < n * L" .
    with True Suc show ?thesis by (simp add: nth_append len)
  next
    case False
    with Suc.prems have "i = n" by simp
    then show ?thesis by (simp add: nth_append len)
  qed
qed

lemma indices_pos_dims: "r \<in> set (indices ns) \<Longrightarrow> map (max 1) ns = ns"
proof -
  assume "r \<in> set (indices ns)"
  then have "0 < length (indices ns)"
    by (rule length_pos_if_in_set)
  then have "prod_list ns \<noteq> 0"
    by (simp add: length_indices)
  then have "\<forall>n \<in> set ns. 1 \<le> n"
    by (induction ns) auto
  then show ?thesis
    by (induction ns) (auto simp: max_def)
qed

lemma nth_indices_cpos:
  "idx \<in> set (indices szs) \<Longrightarrow> cpos szs idx < prod_list szs \<and> indices szs ! cpos szs idx = idx"
proof (induction szs arbitrary: idx)
  case Nil
  then show ?case by (simp add: indices_Nil cpos_def)
next
  case (Cons n ns)
  from Cons.prems obtain i r where idx: "idx = i # r" and i: "i < n" and r: "r \<in> set (indices ns)"
    by (auto simp: set_indices_Cons)
  have st: "prod_list (map (max 1) ns) = prod_list ns"
    using indices_pos_dims [OF r] by simp
  have ih: "cpos ns r < prod_list ns" "indices ns ! cpos ns r = r"
    using Cons.IH [OF r] by simp_all
  have c: "cpos (n # ns) idx = i * prod_list ns + cpos ns r"
    using st by (simp add: cpos_def idx)
  have lt: "i * prod_list ns + cpos ns r < n * prod_list ns"
  proof -
    have "i * prod_list ns + cpos ns r < Suc i * prod_list ns" using ih(1) by simp
    also have "\<dots> \<le> n * prod_list ns" using i by (intro mult_le_mono1) simp
    finally show ?thesis .
  qed
  have "concat (map (\<lambda>i. map ((#) i) (indices ns)) [0..<n]) ! (i * prod_list ns + cpos ns r)
          = map ((#) i) (indices ns) ! cpos ns r"
    by (rule nth_concat_uniform) (simp_all add: length_indices i ih(1))
  also have "\<dots> = i # r"
    using ih by (simp add: length_indices)
  finally show ?case
    using lt by (simp add: c [unfolded idx] indices_Cons idx)
qed

lemma get_new_tensor:
  assumes "idx \<in> set (indices szs)"
  shows "get (snd (new_tensor szs f h)) (fst (new_tensor szs f h)) idx = f idx"
proof -
  have "pos (fst (new_tensor szs f h)) idx = cpos szs idx"
    by (simp add: new_tensor_def pos_def cpos_def)
  then show ?thesis
    using nth_indices_cpos [OF assms]
    by (simp add: get_def new_tensor_def length_indices)
qed

lemma length_contiguous_strides: "length (contiguous_strides szs) = length szs"
  by (induction szs) simp_all

lemma valid_new_tensor: "valid (snd (new_tensor szs f h)) (fst (new_tensor szs f h))"
proof -
  have "pos (fst (new_tensor szs f h)) idx = cpos szs idx" for idx
    by (simp add: new_tensor_def pos_def cpos_def)
  then show ?thesis
    using nth_indices_cpos [of _ szs]
    by (simp add: valid_def new_tensor_def length_contiguous_strides length_indices)
qed

lemma valid_mono: "valid h t \<Longrightarrow> valid (h @ hs) t"
  by (simp add: valid_def nth_append)

lemma get_append: "storage t < length h \<Longrightarrow> get (h @ hs) t idx = get h t idx"
  by (simp add: get_def nth_append)

lemma fold_iadd_length:
  "length (fold (\<lambda>x st. st[p x := st ! p x + v x]) xs st) = length st"
  by (induction xs arbitrary: st) simp_all

lemma fold_iadd_other:
  "q \<notin> p ` set xs \<Longrightarrow> fold (\<lambda>x st. st[p x := st ! p x + v x]) xs st ! q = st ! q"
  by (induction xs arbitrary: st) simp_all

lemma fold_iadd_nth:
  "distinct (map p xs) \<Longrightarrow> x \<in> set xs \<Longrightarrow> p x < length st \<Longrightarrow>
     fold (\<lambda>x st. st[p x := st ! p x + v x]) xs st ! p x = st ! p x + v x"
proof (induction xs arbitrary: st)
  case Nil
  then show ?case by simp
next
  case (Cons y ys)
  show ?case
  proof (cases "x = y")
    case True
    with Cons.prems show ?thesis by (simp add: fold_iadd_other)
  next
    case False
    with Cons.prems have x: "x \<in> set ys" by simp
    have "p y \<notin> p ` set ys" using Cons.prems(1) by simp
    with x have "p x \<noteq> p y" by (metis imageI)
    with x Cons show ?thesis by simp
  qed
qed


section \<open>Facts about the tensor primitives\<close>

lemma distinct_indices: "distinct (indices szs)"
  unfolding indices_def by (rule distinct_product_lists) auto

lemma distinct_map_cpos: "distinct (map (cpos szs) (indices szs))"
proof -
  have "inj_on (cpos szs) (set (indices szs))"
    by (rule inj_onI) (metis nth_indices_cpos)
  then show ?thesis by (simp add: distinct_map distinct_indices)
qed

lemma pos_new_tensor: "pos (fst (new_tensor szs f h)) = cpos szs"
  by (rule ext) (simp add: new_tensor_def pos_def cpos_def)

lemma new_tensor_simps:
  "storage (fst (new_tensor szs f h)) = length h"
  "sizes (fst (new_tensor szs f h)) = szs"
  "snd (new_tensor szs f h) = h @ [map f (indices szs)]"
  by (simp_all add: new_tensor_def)

lemma tensor_iadd_frame:
  assumes "tensor_iadd self other h = Inr h'"
  shows "length h' = length h" and "a \<noteq> storage self \<Longrightarrow> h' ! a = h ! a"
  using assms by (auto simp: tensor_iadd_def split: sum.splits)

lemma tensor_iadd_ok:
  "expand other (sizes self) = Inr src \<Longrightarrow> \<exists>h'. tensor_iadd self other h = Inr h'"
  by (simp add: tensor_iadd_def)

lemma tensor_iadd_get:
  assumes "tensor_iadd self other h = Inr h'"
    and "expand other (sizes self) = Inr src"
    and "storage self < length h"
    and "distinct (map (pos self) (indices (sizes self)))"
    and "idx \<in> set (indices (sizes self))"
    and "pos self idx < length (h ! storage self)"
  shows "get h' self idx = get h self idx + get h src idx"
  using assms fold_iadd_nth [of "pos self" "indices (sizes self)" idx "h ! storage self" "get h src"]
  by (auto simp: tensor_iadd_def get_def)

lemma tensor_t_2d:
  assumes "sizes w = [n, k]" "length (strides w) = 2"
  shows "\<exists>wt. tensor_t w = Inr wt \<and> sizes wt = [k, n] \<and> storage wt = storage w \<and>
           (\<forall>l j. pos wt [l, j] = pos w [j, l])"
proof -
  from assms(2) obtain s0 s1 where "strides w = [s0, s1]"
    by (cases "strides w"; cases "tl (strides w)") auto
  then show ?thesis using assms(1) by (simp add: tensor_t_def pos_def)
qed

lemma in_indices_2d: "i < m \<Longrightarrow> j < n \<Longrightarrow> [i, j] \<in> set (indices [m, n])"
  by (simp add: set_indices_Cons indices_Nil)

lemma mm_2d:
  assumes "sizes a = [m, k]" "sizes b = [k, n]"
  shows "mm a b h = Inr (new_tensor [m, n]
           (\<lambda>idx. \<Sum>l\<leftarrow>[0..<k]. get h a [idx ! 0, l] * get h b [l, idx ! 1]) h)"
  using assms by (simp add: mm_def)

lemma bias_view:
  assumes "sizes b = [n]" "length (strides b) = 1" "sizes out = [m, n]"
  shows "\<exists>b1 b2. unsqueeze b 0 = Inr b1 \<and> expand_as b1 out = Inr b2 \<and>
           expand b2 (sizes out) = Inr b2 \<and> storage b2 = storage b \<and>
           (\<forall>i<m. \<forall>j. pos b2 [i, j] = pos b [j])"
proof -
  from assms(2) obtain s where s: "strides b = [s]"
    by (cases "strides b") auto
  show ?thesis
    using assms(1,3) s
    by (auto simp: unsqueeze_def expand_as_def expand_def pos_def)
qed

section \<open>Facts about the two functions\<close>

subsection \<open>What a returning \<^verbatim>\<open>backward\<close> of \<^verbatim>\<open>LinearFunction\<close> went through\<close>

lemma ebind_Inr: "ebind m f = Inr r \<longleftrightarrow> (\<exists>x. m = Inr x \<and> f x = Inr r)"
  by (cases m) (simp_all add: ebind_def)

lemma ebind_simps: "ebind (Inl e) f = Inl e" "ebind (Inr x) f = f x"
  by (simp_all add: ebind_def)

lemma mm_frame:
  "mm a b h = Inr (r, h') \<Longrightarrow> \<exists>x. h' = h @ [x]"
  by (auto simp: mm_def new_tensor_def split: if_splits)

lemma tensor_sum_frame: "tensor_sum x h = (r, h') \<Longrightarrow> \<exists>y. h' = h @ [y]"
  by (auto simp: tensor_sum_def new_tensor_def split: list.splits)

lemma tensor_mul_frame: "tensor_mul x c h = (r, h') \<Longrightarrow> \<exists>y. h' = h @ [y]"
  by (auto simp: tensor_mul_def new_tensor_def)

lemma grad_input_stmt_Inr:
  assumes "grad_input_stmt ctx g weight h = Inr (r, h')"
  shows "\<exists>hs. h' = h @ hs"
    and "r \<noteq> None \<Longrightarrow> 0 < length (needs_input_grad ctx) \<and> needs_input_grad ctx ! 0"
  using assms
  by (auto simp: grad_input_stmt_def ebind_Inr tuple_index_def split: if_splits dest: mm_frame)

lemma grad_weight_stmt_Inr:
  assumes "grad_weight_stmt ctx g input h = Inr (r, h')"
  shows "\<exists>hs. h' = h @ hs"
    and "r \<noteq> None \<Longrightarrow> 1 < length (needs_input_grad ctx) \<and> needs_input_grad ctx ! 1"
  using assms
  by (auto simp: grad_weight_stmt_def ebind_Inr tuple_index_def split: if_splits dest: mm_frame)

lemma grad_bias_stmt_Inr:
  assumes "grad_bias_stmt ctx g bias h = Inr (r, h')"
  shows "\<exists>hs. h' = h @ hs"
    and "r \<noteq> None \<Longrightarrow> bias \<noteq> None \<and> 2 < length (needs_input_grad ctx) \<and> needs_input_grad ctx ! 2"
  using assms
  by (auto simp: grad_bias_stmt_def ebind_Inr tuple_index_def split: if_splits prod.splits
      dest: tensor_sum_frame)

lemma LinearFunction_backward_Inr:
  assumes "LinearFunction_backward ctx g h = Inr (gs, h')"
  obtains input weight bias gi h1 gw h2 gb where
    "saved_tensors ctx = [input, weight, bias]"
    "grad_input_stmt ctx g weight h = Inr (gi, h1)"
    "grad_weight_stmt ctx g input h1 = Inr (gw, h2)"
    "grad_bias_stmt ctx g bias h2 = Inr (gb, h')"
    "gs = [gi, gw, gb]"
proof -
  from assms obtain input weight bias where sv: "saved_tensors ctx = [input, weight, bias]"
    by (simp add: LinearFunction_backward_def split: list.splits)
  note defs = LinearFunction_backward_def sv ebind_simps
  show thesis
  proof (cases "grad_input_stmt ctx g weight h")
    case (Inl e)
    with assms show ?thesis by (simp add: defs)
  next
    case 1: (Inr x1)
    obtain gi h1 where x1: "x1 = (gi, h1)" by (cases x1)
    show ?thesis
    proof (cases "grad_weight_stmt ctx g input h1")
      case (Inl e)
      with assms 1 show ?thesis by (simp add: defs x1)
    next
      case 2: (Inr x2)
      obtain gw h2 where x2: "x2 = (gw, h2)" by (cases x2)
      show ?thesis
      proof (cases "grad_bias_stmt ctx g bias h2")
        case (Inl e)
        with assms 1 2 show ?thesis by (simp add: defs x1 x2)
      next
        case 3: (Inr x3)
        obtain gb h3 where x3: "x3 = (gb, h3)" by (cases x3)
        from assms 1 2 3 have gs: "gs = [gi, gw, gb]" and h3: "h3 = h'"
          by (simp_all add: defs x1 x2 x3)
        show ?thesis
        proof (rule that [OF sv])
          show "grad_input_stmt ctx g weight h = Inr (gi, h1)" using 1 by (simp add: x1)
          show "grad_weight_stmt ctx g input h1 = Inr (gw, h2)" using 2 by (simp add: x2)
          show "grad_bias_stmt ctx g bias h2 = Inr (gb, h')" using 3 by (simp add: x3 h3)
          show "gs = [gi, gw, gb]" by (rule gs)
        qed
      qed
    qed
  qed
qed

subsection \<open>What a returning \<^verbatim>\<open>forward\<close> of \<^verbatim>\<open>LinearFunction\<close> implies\<close>

lemma list2: "length xs = 2 \<Longrightarrow> xs = [xs ! 0, xs ! 1]"
  by (cases xs; cases "tl xs") auto

lemma mm_Inr:
  assumes "mm a b h = Inr (r, h')"
  obtains m k n x where "sizes a = [m, k]" "sizes b = [k, n]" "sizes r = [m, n]"
    "storage r = length h" "h' = h @ [x]"
proof -
  from assms have l: "length (sizes a) = 2" "length (sizes b) = 2" "sizes a ! 1 = sizes b ! 0"
    by (simp_all add: mm_def split: if_splits)
  with assms have r: "sizes r = [sizes a ! 0, sizes b ! 1]" "storage r = length h"
      "\<exists>x. h' = h @ [x]"
    by (auto simp: mm_def new_tensor_def)
  from l have "sizes a = [sizes a ! 0, sizes b ! 0]" "sizes b = [sizes b ! 0, sizes b ! 1]"
    using list2 [of "sizes a"] list2 [of "sizes b"] by simp_all
  with r that show thesis by blast
qed

lemma tensor_t_Inr_2d:
  assumes "tensor_t w = Inr wt" "sizes wt = [k, n]"
  shows "sizes w = [n, k]" "strides wt = rev (strides w)" "storage wt = storage w" "offset wt = offset w"
proof -
  from assms have "length (sizes w) = 2"
    by (auto simp: tensor_t_def split: if_splits)
  with assms have "wt = w\<lparr>sizes := rev (sizes w), strides := rev (strides w)\<rparr>"
    by (simp add: tensor_t_def)
  with assms(2) show "sizes w = [n, k]" "strides wt = rev (strides w)" "storage wt = storage w"
    "offset wt = offset w"
    by (simp_all add: rev_swap [symmetric])
qed

lemma tensor_iadd_fresh:
  assumes "tensor_iadd self other (h @ [x]) = Inr h'" "storage self = length h"
  shows "\<exists>y. h' = h @ [y]"
  using assms by (auto simp: tensor_iadd_def split: sum.splits)

lemma LinearFunction_forward_Inr:
  assumes "LinearFunction_forward ctx input weight bias h = Inr (ctx1, out, h1)"
  obtains m k n x where "sizes input = [m, k]" "sizes weight = [n, k]" "sizes out = [m, n]"
    "storage out = length h" "h1 = h @ [x]"
    "ctx1 = ctx\<lparr>saved_tensors := [Some input, Some weight, bias]\<rparr>"
proof -
  from assms obtain wt where wt: "tensor_t weight = Inr wt"
    by (cases "tensor_t weight") (simp_all add: LinearFunction_forward_def ebind_simps)
  from assms obtain o1 h0 where mm: "mm input wt h = Inr (o1, h0)"
    by (cases "mm input wt h") (auto simp: LinearFunction_forward_def ebind_simps wt)
  from mm obtain m k n x where s: "sizes input = [m, k]" "sizes wt = [k, n]" "sizes o1 = [m, n]"
    "storage o1 = length h" "h0 = h @ [x]"
    by (rule mm_Inr)
  have w: "sizes weight = [n, k]"
    using tensor_t_Inr_2d(1) [OF wt s(2)] .
  show thesis
  proof (cases bias)
    case None
    with assms wt mm have "out = o1" "h1 = h0"
      "ctx1 = ctx\<lparr>saved_tensors := [Some input, Some weight, bias]\<rparr>"
      by (simp_all add: LinearFunction_forward_def ebind_simps)
    with s w that show ?thesis by blast
  next
    case (Some b)
    with assms wt mm obtain b2 where "tensor_iadd o1 b2 h0 = Inr h1" and eq: "out = o1"
      "ctx1 = ctx\<lparr>saved_tensors := [Some input, Some weight, bias]\<rparr>"
      by (auto simp: LinearFunction_forward_def ebind_simps ebind_Inr)
    then obtain y where "h1 = h @ [y]"
      using tensor_iadd_fresh [of o1 b2 h x h1] s(4,5) by auto
    with s w eq that show ?thesis by blast
  qed
qed

subsection \<open>\<^verbatim>\<open>backward\<close> returns on arguments of the right shape\<close>

lemma grad_input_stmt_total:
  assumes "sizes g = [m, n]" "sizes weight = [n, k]" "0 < length (needs_input_grad ctx)"
  shows "\<exists>gi h1. grad_input_stmt ctx g (Some weight) h = Inr (gi, h1) \<and>
           (\<forall>t. gi = Some t \<longrightarrow> sizes t = [m, k])"
  using assms mm_2d [of g m n weight k h]
  by (simp add: grad_input_stmt_def tuple_index_def ebind_simps as_tensor_def new_tensor_def)

lemma grad_weight_stmt_total:
  assumes "sizes g = [m, n]" "sizes input = [m, k]" "1 < length (needs_input_grad ctx)"
  shows "\<exists>gw h1. grad_weight_stmt ctx g (Some input) h = Inr (gw, h1) \<and>
           (\<forall>t. gw = Some t \<longrightarrow> sizes t = [n, k])"
proof -
  define gt where "gt = g\<lparr>sizes := rev (sizes g), strides := rev (strides g)\<rparr>"
  have gt: "tensor_t g = Inr gt" "sizes gt = [n, m]"
    using assms(1) by (simp_all add: tensor_t_def gt_def)
  show ?thesis
    using assms(3) gt(1) mm_2d [OF gt(2) assms(2), of h]
    by (simp add: grad_weight_stmt_def tuple_index_def ebind_simps as_tensor_def new_tensor_def)
qed

lemma grad_bias_stmt_total:
  assumes "sizes g = [m, n]" "bias \<noteq> None \<Longrightarrow> 2 < length (needs_input_grad ctx)"
  shows "\<exists>gb h1. grad_bias_stmt ctx g bias h = Inr (gb, h1) \<and>
           (\<forall>t. gb = Some t \<longrightarrow> sizes t = [n])"
  using assms
  by (cases bias)
     (simp_all add: grad_bias_stmt_def tuple_index_def ebind_simps tensor_sum_def new_tensor_def)

lemma LinearFunction_backward_total:
  assumes sv: "saved_tensors ctx = [Some input, Some weight, bias]"
    and sh: "sizes input = [m, k]" "sizes weight = [n, k]" "sizes g = [m, n]"
    and nig: "1 < length (needs_input_grad ctx)"
      "bias \<noteq> None \<Longrightarrow> 2 < length (needs_input_grad ctx)"
  shows "\<exists>gi gw gb h'. LinearFunction_backward ctx g h = Inr ([gi, gw, gb], h') \<and>
           (\<forall>t. gi = Some t \<longrightarrow> sizes t = [m, k]) \<and>
           (\<forall>t. gw = Some t \<longrightarrow> sizes t = [n, k]) \<and>
           (\<forall>t. gb = Some t \<longrightarrow> sizes t = [n])"
proof -
  from nig(1) have "0 < length (needs_input_grad ctx)" by (cases "needs_input_grad ctx") simp_all
  from grad_input_stmt_total [OF sh(3,2) this, where h = h]
  obtain gi h1 where 1: "grad_input_stmt ctx g (Some weight) h = Inr (gi, h1)"
    "\<forall>t. gi = Some t \<longrightarrow> sizes t = [m, k]" by blast
  from grad_weight_stmt_total [OF sh(3,1) nig(1), where h = h1]
  obtain gw h2 where 2: "grad_weight_stmt ctx g (Some input) h1 = Inr (gw, h2)"
    "\<forall>t. gw = Some t \<longrightarrow> sizes t = [n, k]" by blast
  from grad_bias_stmt_total [OF sh(3) nig(2), where h = h2]
  obtain gb h3 where 3: "grad_bias_stmt ctx g bias h2 = Inr (gb, h3)"
    "\<forall>t. gb = Some t \<longrightarrow> sizes t = [n]" by blast
  have "LinearFunction_backward ctx g h = Inr ([gi, gw, gb], h3)"
    by (simp add: LinearFunction_backward_def sv ebind_simps 1(1) 2(1) 3(1))
  with 1(2) 2(2) 3(2) show ?thesis by blast
qed

subsection \<open>The context and the results of \<^verbatim>\<open>MulConstant\<close>\<close>

lemma MulConstant_forward_ctx:
  "ctx_constant (fst (MulConstant_forward ctx t c h)) = Some c"
  "ctx_constant (fst (MulConstant_opt_forward ctx t c h)) = Some c"
  "materialize_grads (fst (MulConstant_opt_forward ctx t c h)) = False"
  by (simp_all add: MulConstant_forward_def MulConstant_opt_forward_def Let_def split: prod.splits)

lemma tensor_mul_value:
  "\<exists>r h'. tensor_mul g c h = (r, h') \<and> sizes r = sizes g \<and> storage r = length h \<and>
     (\<exists>x. h' = h @ [x]) \<and> valid h' r \<and>
     (\<forall>idx \<in> set (indices (sizes g)). get h' r idx = get h g idx * c)"
proof -
  define r where "r = fst (tensor_mul g c h)"
  define h' where "h' = snd (tensor_mul g c h)"
  have "tensor_mul g c h = (r, h')" by (simp add: r_def h'_def)
  moreover have "sizes r = sizes g" "storage r = length h" "\<exists>x. h' = h @ [x]"
    by (simp_all add: r_def h'_def tensor_mul_def new_tensor_def)
  moreover have "valid h' r"
    unfolding r_def h'_def tensor_mul_def by (rule valid_new_tensor)
  moreover have "get h' r idx = get h g idx * c" if "idx \<in> set (indices (sizes g))" for idx
    unfolding r_def h'_def tensor_mul_def using that by (rule get_new_tensor)
  ultimately show ?thesis by blast
qed


lemma MulConstant_backward_Inr:
  assumes "MulConstant_backward ctx go h = Inr (gs, h')"
  obtains g r c x where "go = Some g" "ctx_constant ctx = Some c" "tensor_mul g c h = (r, h')"
    "gs = [Some r, None]" "h' = h @ [x]"
proof -
  from assms obtain c where c: "ctx_constant ctx = Some c"
    by (cases "ctx_constant ctx") (simp_all add: MulConstant_backward_def)
  from assms c obtain g where g: "go = Some g"
    by (cases go) (simp_all add: MulConstant_backward_def)
  obtain r h1 where m: "tensor_mul g c h = (r, h1)" by (cases "tensor_mul g c h")
  with assms c g have e: "gs = [Some r, None]" "h1 = h'"
    by (simp_all add: MulConstant_backward_def)
  from m obtain x where "h1 = h @ [x]" using tensor_mul_frame by blast
  with c g m e that show thesis by blast
qed

lemma MulConstant_opt_backward_Inr:
  assumes "MulConstant_opt_backward ctx go h = Inr (gs, h')"
  shows "length gs = 2 \<and> gs ! 1 = None \<and> (\<exists>hs. h' = h @ hs)"
proof (cases go)
  case None
  with assms show ?thesis by (auto simp: MulConstant_opt_backward_def)
next
  case (Some g)
  from assms Some obtain c where c: "ctx_constant ctx = Some c"
    by (cases "ctx_constant ctx") (simp_all add: MulConstant_opt_backward_def)
  obtain r h1 where m: "tensor_mul g c h = (r, h1)" by (cases "tensor_mul g c h")
  with assms c Some have e: "gs = [Some r, None]" "h1 = h'"
    by (simp_all add: MulConstant_opt_backward_def)
  from m obtain x where "h1 = h @ [x]" using tensor_mul_frame by blast
  with e show ?thesis by auto
qed

subsection \<open>The components of a returned gradient tuple\<close>

lemma LinearFunction_backward_slots:
  assumes "LinearFunction_backward ctx g h = Inr (gs, h')"
  shows "length gs = 3"
    and "\<exists>hs. h' = h @ hs"
    and "gs ! 0 \<noteq> None \<Longrightarrow> 0 < length (needs_input_grad ctx) \<and> needs_input_grad ctx ! 0"
    and "gs ! 1 \<noteq> None \<Longrightarrow> 1 < length (needs_input_grad ctx) \<and> needs_input_grad ctx ! 1"
    and "gs ! 2 \<noteq> None \<Longrightarrow> 2 < length (needs_input_grad ctx) \<and> needs_input_grad ctx ! 2 \<and>
           saved_tensors ctx ! 2 \<noteq> None"
proof -
  from assms obtain input weight bias gi h1 gw h2 gb where b:
    "saved_tensors ctx = [input, weight, bias]"
    "grad_input_stmt ctx g weight h = Inr (gi, h1)"
    "grad_weight_stmt ctx g input h1 = Inr (gw, h2)"
    "grad_bias_stmt ctx g bias h2 = Inr (gb, h')"
    "gs = [gi, gw, gb]"
    by (rule LinearFunction_backward_Inr)
  show "length gs = 3" by (simp add: b(5))
  from grad_input_stmt_Inr(1) [OF b(2)] grad_weight_stmt_Inr(1) [OF b(3)]
    grad_bias_stmt_Inr(1) [OF b(4)]
  show "\<exists>hs. h' = h @ hs" by auto
  show "gs ! 0 \<noteq> None \<Longrightarrow> 0 < length (needs_input_grad ctx) \<and> needs_input_grad ctx ! 0"
    using grad_input_stmt_Inr(2) [OF b(2)] by (simp add: b(5))
  show "gs ! 1 \<noteq> None \<Longrightarrow> 1 < length (needs_input_grad ctx) \<and> needs_input_grad ctx ! 1"
    using grad_weight_stmt_Inr(2) [OF b(3)] by (simp add: b(5))
  show "gs ! 2 \<noteq> None \<Longrightarrow> 2 < length (needs_input_grad ctx) \<and> needs_input_grad ctx ! 2 \<and>
           saved_tensors ctx ! 2 \<noteq> None"
    using grad_bias_stmt_Inr(2) [OF b(4)] by (simp add: b(5) b(1))
qed

subsection \<open>The concrete invocation, evaluated\<close>

text \<open>The handles of the concrete invocation are valid in its heap.\<close>

lemma ex_valid:
  "valid ex_heap ex_input" "valid ex_heap ex_weight" "valid ex_heap ex_bias" "valid ex_heap ex_grad"
  by code_simp+

lemma ex_forward:
  "LinearFunction_forward ex_ctx ex_input ex_weight (Some ex_bias) ex_heap
     = Inr (ex_ctx1, ex_out, ex_heap1)"
  by code_simp

lemma ex_backward:
  "LinearFunction_backward ex_ctx1 ex_grad ex_heap1 = Inr (ex_grads, ex_heap2)"
  by code_simp

lemma ex_backward_partial:
  "LinearFunction_backward (ex_ctx1\<lparr>needs_input_grad := [True, False, True]\<rparr>) ex_grad ex_heap1
     = Inr ([Some \<lparr>storage = 5, offset = 0, sizes = [2, 2], strides = [2, 1]\<rparr>, None,
             Some \<lparr>storage = 6, offset = 0, sizes = [3], strides = [1]\<rparr>],
            ex_heap1 @ [[2, 2, 2, 2], [2, 2, 2]])"
  by code_simp

lemma ex_forward_nb:
  "LinearFunction_forward (ex_ctx\<lparr>needs_input_grad := [True, True]\<rparr>) ex_input ex_weight None ex_heap
     = Inr (ex_ctx_nb, ex_out, ex_heap_nb)"
  by code_simp

lemma ex_backward_nb:
  "LinearFunction_backward ex_ctx_nb ex_grad ex_heap_nb
     = Inr ([Some \<lparr>storage = 5, offset = 0, sizes = [2, 2], strides = [2, 1]\<rparr>,
             Some \<lparr>storage = 6, offset = 0, sizes = [3, 2], strides = [2, 1]\<rparr>, None],
            ex_heap_nb @ [[2, 2, 2, 2], [4, 6, 4, 6, 4, 6]])"
  by code_simp

lemma ex_mul_backward:
  "MulConstant_backward (fst (MulConstant_forward ex_ctx ex_input 3 ex_heap)) (Some ex_grad) ex_heap
     = Inr ([Some \<lparr>storage = 4, offset = 0, sizes = [2, 3], strides = [3, 1]\<rparr>, None],
            ex_heap @ [[3, 3, 3, 3, 3, 3]])"
  "MulConstant_opt_backward (fst (MulConstant_opt_forward ex_ctx ex_input 3 ex_heap)) (Some ex_grad) ex_heap
     = Inr ([Some \<lparr>storage = 4, offset = 0, sizes = [2, 3], strides = [3, 1]\<rparr>, None],
            ex_heap @ [[3, 3, 3, 3, 3, 3]])"
  by code_simp+

subsection \<open>The values \<^verbatim>\<open>backward\<close> of \<^verbatim>\<open>LinearFunction\<close> computes\<close>

text \<open>
  With all three gradients requested, \<^verbatim>\<open>backward\<close> returns the product of the upstream
  gradient with the weight, the product of the transposed upstream gradient with the input,
  and the column sums of the upstream gradient.
\<close>

lemma mm_value:
  assumes "sizes a = [m, k]" "sizes b = [k, n]"
  obtains r x where "mm a b h = Inr (r, h @ [x])" "sizes r = [m, n]" "storage r = length h"
    "\<And>i j. i < m \<Longrightarrow> j < n \<Longrightarrow>
       get (h @ [x]) r [i, j] = (\<Sum>l<k. get h a [i, l] * get h b [l, j])"
proof -
  define F where "F = (\<lambda>idx. \<Sum>l\<leftarrow>[0..<k]. get h a [idx ! 0, l] * get h b [l, idx ! 1])"
  define r where "r = fst (new_tensor [m, n] F h)"
  define x where "x = map F (indices [m, n])"
  have 1: "mm a b h = Inr (r, h @ [x])"
    using mm_2d [OF assms, of h] by (simp add: F_def r_def x_def new_tensor_def)
  have 2: "sizes r = [m, n]" "storage r = length h"
    by (simp_all add: r_def new_tensor_simps)
  have "get (h @ [x]) r [i, j] = F [i, j]" if "i < m" "j < n" for i j
    using get_new_tensor [OF in_indices_2d [OF that], of F h]
    by (simp add: r_def x_def new_tensor_simps)
  then have 3: "get (h @ [x]) r [i, j] = (\<Sum>l<k. get h a [i, l] * get h b [l, j])"
    if "i < m" "j < n" for i j
    using that by (simp add: F_def interv_sum_list_conv_sum_set_nat atLeast0LessThan)
  from 1 2 3 that show thesis by blast
qed

lemma tensor_sum_value:
  assumes "sizes g = [m, n]"
  obtains r x where "tensor_sum g h = (r, h @ [x])" "sizes r = [n]" "storage r = length h"
    "\<And>j. j < n \<Longrightarrow> get (h @ [x]) r [j] = (\<Sum>i<m. get h g [i, j])"
proof -
  define F where "F = (\<lambda>idx. \<Sum>i\<leftarrow>[0..<m]. get h g (i # idx))"
  define r where "r = fst (new_tensor [n] F h)"
  define x where "x = map F (indices [n])"
  have 1: "tensor_sum g h = (r, h @ [x])"
    using assms by (simp add: tensor_sum_def F_def r_def x_def new_tensor_def)
  have 2: "sizes r = [n]" "storage r = length h"
    by (simp_all add: r_def new_tensor_simps)
  have "[j] \<in> set (indices [n])" if "j < n" for j
    using that by (simp add: set_indices_Cons indices_Nil)
  then have "get (h @ [x]) r [j] = F [j]" if "j < n" for j
    using get_new_tensor [of "[j]" "[n]" F h] that
    by (simp add: r_def x_def new_tensor_simps)
  then have 3: "get (h @ [x]) r [j] = (\<Sum>i<m. get h g [i, j])" if "j < n" for j
    using that by (simp add: F_def interv_sum_list_conv_sum_set_nat atLeast0LessThan)
  from 1 2 3 that show thesis by blast
qed

lemma LinearFunction_backward_value:
  fixes h :: "'a::semiring_0 heap"
  assumes sv: "saved_tensors ctx = [Some input, Some weight, Some b]"
    and nig: "needs_input_grad ctx = [True, True, True]"
    and sh: "sizes input = [m, k]" "sizes weight = [n, k]" "sizes g = [m, n]"
    and al: "storage input < length h" "storage weight < length h" "storage g < length h"
      "length (strides g) = 2"
  shows "\<exists>gi gw gb h'.
           LinearFunction_backward ctx g h = Inr ([Some gi, Some gw, Some gb], h') \<and>
           sizes gi = [m, k] \<and> sizes gw = [n, k] \<and> sizes gb = [n] \<and>
           (\<forall>i<m. \<forall>l<k. get h' gi [i, l] = (\<Sum>j<n. get h g [i, j] * get h weight [j, l])) \<and>
           (\<forall>j<n. \<forall>l<k. get h' gw [j, l] = (\<Sum>i<m. get h g [i, j] * get h input [i, l])) \<and>
           (\<forall>j<n. get h' gb [j] = (\<Sum>i<m. get h g [i, j]))"
proof -
  obtain gi x1 where 1: "mm g weight h = Inr (gi, h @ [x1])" "sizes gi = [m, k]"
    "storage gi = length h"
    "\<And>i l. i < m \<Longrightarrow> l < k \<Longrightarrow>
       get (h @ [x1]) gi [i, l] = (\<Sum>j<n. get h g [i, j] * get h weight [j, l])"
    using mm_value [OF sh(3,2), of h] by blast
  let ?h1 = "h @ [x1]"
  obtain gt where gt: "tensor_t g = Inr gt" "sizes gt = [n, m]" "storage gt = storage g"
    "\<And>j i. pos gt [j, i] = pos g [i, j]"
    using tensor_t_2d [OF sh(3) al(4)] by blast
  obtain gw x2 where 2: "mm gt input ?h1 = Inr (gw, ?h1 @ [x2])" "sizes gw = [n, k]"
    "storage gw = length ?h1"
    "\<And>j l. j < n \<Longrightarrow> l < k \<Longrightarrow>
       get (?h1 @ [x2]) gw [j, l] = (\<Sum>i<m. get ?h1 gt [j, i] * get ?h1 input [i, l])"
    using mm_value [OF gt(2) sh(1), of ?h1] by blast
  let ?h2 = "?h1 @ [x2]"
  obtain gb x3 where 3: "tensor_sum g ?h2 = (gb, ?h2 @ [x3])" "sizes gb = [n]"
    "storage gb = length ?h2"
    "\<And>j. j < n \<Longrightarrow> get (?h2 @ [x3]) gb [j] = (\<Sum>i<m. get ?h2 g [i, j])"
    using tensor_sum_value [OF sh(3), of ?h2] by blast
  let ?h3 = "?h2 @ [x3]"
  have s1: "grad_input_stmt ctx g (Some weight) h = Inr (Some gi, ?h1)"
    by (simp add: grad_input_stmt_def tuple_index_def nig ebind_simps as_tensor_def 1(1))
  have s2: "grad_weight_stmt ctx g (Some input) ?h1 = Inr (Some gw, ?h2)"
    using 2(1) by (simp add: grad_weight_stmt_def tuple_index_def nig ebind_simps as_tensor_def gt(1))
  have s3: "grad_bias_stmt ctx g (Some b) ?h2 = Inr (Some gb, ?h3)"
    using 3(1) by (simp add: grad_bias_stmt_def tuple_index_def nig ebind_simps)
  have r: "LinearFunction_backward ctx g h = Inr ([Some gi, Some gw, Some gb], ?h3)"
    using s1 s2 s3 by (simp add: LinearFunction_backward_def sv ebind_simps)
  have g1: "get ?h1 gt [j, i] = get h g [i, j]" for i j
    using al(3) by (simp add: get_def gt(3,4) nth_append)
  have g2: "get ?h1 input idx = get h input idx" "get ?h2 g idx = get h g idx" for idx
    using al(1,3) by (simp_all add: get_def nth_append)
  have v1: "get ?h3 gi [i, l] = (\<Sum>j<n. get h g [i, j] * get h weight [j, l])"
    if "i < m" "l < k" for i l
  proof -
    have "get ?h3 gi [i, l] = get ?h1 gi [i, l]"
      by (simp add: get_def 1(3) nth_append)
    with 1(4) [OF that] show ?thesis by simp
  qed
  have v2: "get ?h3 gw [j, l] = (\<Sum>i<m. get h g [i, j] * get h input [i, l])"
    if "j < n" "l < k" for j l
  proof -
    have "get ?h3 gw [j, l] = get ?h2 gw [j, l]"
      by (simp add: get_def 2(3) nth_append)
    with 2(4) [OF that] show ?thesis by (simp add: g1 g2)
  qed
  have v3: "get ?h3 gb [j] = (\<Sum>i<m. get h g [i, j])" if "j < n" for j
    using 3(4) [OF that] al(3) by (simp add: get_append)
  from r 1(2) 2(2) 3(2) v1 v2 v3 show ?thesis by blast
qed

subsection \<open>Perturbed inputs and the numerical Jacobian\<close>












subsection \<open>One-hot upstream gradients and the analytical Jacobian\<close>





subsection \<open>The outcome of the gradient check\<close>




section \<open>The claims\<close>

text \<open>
  C1: for an input of shape \<open>m \<times> k\<close>, a weight of shape \<open>n \<times> k\<close> and an optional bias of
  length \<open>n\<close>, \<^verbatim>\<open>LinearFunction.forward\<close> returns a tensor of shape \<open>m \<times> n\<close> whose entry
  \<open>(i, j)\<close> is the entry of the matrix product of the input with the transposed weight, plus
  \<open>b[j]\<close> when a bias \<open>b\<close> is supplied and plus nothing when it is absent.
\<close>

theorem LinearFunction_forward_value:
  fixes h :: "'a::semiring_0 heap"
  assumes "valid h input" "sizes input = [m, k]" "valid h weight" "sizes weight = [n, k]"
    and "\<forall>b. bias = Some b \<longrightarrow> valid h b \<and> sizes b = [n]"
  shows "\<exists>ctx1 output h1.
           LinearFunction_forward ctx input weight bias h = Inr (ctx1, output, h1) \<and>
           sizes output = [m, n] \<and>
           (\<forall>i<m. \<forall>j<n. get h1 output [i, j] =
              (\<Sum>l<k. get h input [i, l] * get h weight [j, l]) +
              (case bias of None \<Rightarrow> 0 | Some b \<Rightarrow> get h b [j]))"
proof -
  from assms(3,4) obtain wt where wt: "tensor_t weight = Inr wt" "sizes wt = [k, n]"
      "storage wt = storage weight" "\<And>l j. pos wt [l, j] = pos weight [j, l]"
    using tensor_t_2d [of weight n k] by (auto simp: valid_def)
  define F where "F = (\<lambda>idx. \<Sum>l\<leftarrow>[0..<k]. get h input [idx ! 0, l] * get h wt [l, idx ! 1])"
  define out where "out = fst (new_tensor [m, n] F h)"
  define h1 where "h1 = snd (new_tensor [m, n] F h)"
  have mm: "mm input wt h = Inr (out, h1)"
    using mm_2d [OF assms(2) wt(2)] by (simp add: F_def out_def h1_def)
  have out: "sizes out = [m, n]" "storage out = length h"
    by (simp_all add: out_def new_tensor_simps)
  have vout: "valid h1 out"
    unfolding out_def h1_def by (rule valid_new_tensor)
  have F: "F [i, j] = (\<Sum>l<k. get h input [i, l] * get h weight [j, l])" for i j
    by (simp add: F_def get_def wt(3,4) interv_sum_list_conv_sum_set_nat atLeast0LessThan)
  have val: "get h1 out [i, j] = F [i, j]" if "i < m" "j < n" for i j
    unfolding out_def h1_def using that by (intro get_new_tensor in_indices_2d)
  show ?thesis
  proof (cases bias)
    case None
    then show ?thesis
      using mm out val F wt(1) by (simp add: LinearFunction_forward_def ebind_def)
  next
    case (Some b)
    with assms(5) have b: "valid h b" "sizes b = [n]" by simp_all
    then obtain b1 b2 where bv: "unsqueeze b 0 = Inr b1" "expand_as b1 out = Inr b2"
        "expand b2 (sizes out) = Inr b2" "storage b2 = storage b"
        "\<And>i j. i < m \<Longrightarrow> pos b2 [i, j] = pos b [j]"
      using bias_view [of b n out m] out(1) by (auto simp: valid_def)
    have dist: "distinct (map (pos out) (indices (sizes out)))"
      by (simp add: out_def pos_new_tensor new_tensor_simps distinct_map_cpos)
    obtain h2 where h2: "tensor_iadd out b2 h1 = Inr h2"
      using tensor_iadd_ok [OF bv(3)] by blast
    have add: "get h2 out [i, j] = get h1 out [i, j] + get h1 b2 [i, j]" if "i < m" "j < n" for i j
      using vout that
      by (intro tensor_iadd_get [OF h2 bv(3) _ dist]) (simp_all add: valid_def out(1) in_indices_2d)
    have "get h1 b2 [i, j] = get h b [j]" if "i < m" for i j
      using that b(1) by (simp add: get_def bv(4,5) h1_def new_tensor_simps nth_append valid_def)
    then show ?thesis
      using mm out val F wt(1) bv h2 add Some
      by (simp add: LinearFunction_forward_def ebind_def)
  qed
qed


theorem LinearFunction_forward_value_witness:
  "valid ex_heap ex_input \<and> sizes ex_input = [2, 2] \<and> valid ex_heap ex_weight \<and>
   sizes ex_weight = [3, 2] \<and> valid ex_heap ex_bias \<and> sizes ex_bias = [3] \<and>
   (\<exists>ctx1 output h1.
      LinearFunction_forward ex_ctx ex_input ex_weight (Some ex_bias) ex_heap = Inr (ctx1, output, h1) \<and>
      sizes output = [2, 3] \<and>
      (\<forall>i<2. \<forall>j<3. get h1 output [i, j] =
         (\<Sum>l<2. get ex_heap ex_input [i, l] * get ex_heap ex_weight [j, l]) + get ex_heap ex_bias [j]))"
proof -
  have s: "sizes ex_input = [2, 2]" "sizes ex_weight = [3, 2]" "sizes ex_bias = [3]"
    by (simp_all add: ex_input_def ex_weight_def ex_bias_def)
  show ?thesis
    using LinearFunction_forward_value [of ex_heap ex_input 2 2 ex_weight 3 "Some ex_bias" ex_ctx]
      ex_valid s
    by simp
qed



text \<open>
  C3: for every tensor \<open>t\<close>, constant \<open>c\<close> and upstream gradient tensor \<open>g\<close>, \<^verbatim>\<open>backward\<close> of
  \<^verbatim>\<open>MulConstant\<close> (plain and optimised variant), run on the context left by \<^verbatim>\<open>forward\<close>,
  returns the pair of a fresh tensor of the shape of \<open>g\<close> holding \<open>g\<close> scaled element-wise by
  \<open>c\<close>, and \<^verbatim>\<open>None\<close> for the constant.
\<close>

theorem MulConstant_backward_value:
  fixes h :: "'a::semiring_0 heap"
  shows "(\<exists>r h'. MulConstant_backward (fst (MulConstant_forward ctx t c h0)) (Some g) h
            = Inr ([Some r, None], h') \<and> sizes r = sizes g \<and>
            (\<forall>idx \<in> set (indices (sizes g)). get h' r idx = get h g idx * c)) \<and>
         (\<exists>r h'. MulConstant_opt_backward (fst (MulConstant_opt_forward ctx t c h0)) (Some g) h
            = Inr ([Some r, None], h') \<and> sizes r = sizes g \<and>
            (\<forall>idx \<in> set (indices (sizes g)). get h' r idx = get h g idx * c))"
proof -
  from tensor_mul_value [of g c h] obtain r h' where
    "tensor_mul g c h = (r, h')" "sizes r = sizes g"
    "\<forall>idx \<in> set (indices (sizes g)). get h' r idx = get h g idx * c"
    by blast
  then show ?thesis
    by (simp add: MulConstant_backward_def MulConstant_opt_backward_def MulConstant_forward_ctx)
qed

theorem MulConstant_backward_value_witness:
  "(\<exists>r h'. MulConstant_backward (fst (MulConstant_forward ex_ctx ex_input 3 ex_heap)) (Some ex_grad) ex_heap
            = Inr ([Some r, None], h') \<and> sizes r = sizes ex_grad \<and> [1, 2] \<in> set (indices (sizes ex_grad)) \<and>
            get h' r [1, 2] = get ex_heap ex_grad [1, 2] * 3) \<and>
   (\<exists>r h'. MulConstant_opt_backward (fst (MulConstant_opt_forward ex_ctx ex_input 3 ex_heap)) (Some ex_grad) ex_heap
            = Inr ([Some r, None], h') \<and> sizes r = sizes ex_grad \<and> [1, 2] \<in> set (indices (sizes ex_grad)) \<and>
            get h' r [1, 2] = get ex_heap ex_grad [1, 2] * 3)"
proof -
  have "[1, 2] \<in> set (indices (sizes ex_grad))"
    by (simp add: ex_grad_def in_indices_2d)
  then show ?thesis
    using MulConstant_backward_value [of ex_ctx ex_input 3 ex_heap ex_grad ex_heap]
    by blast
qed

text \<open>
  C4: the optimised \<^verbatim>\<open>MulConstant\<close> switches gradient materialisation off in \<^verbatim>\<open>forward\<close>, and
  its \<^verbatim>\<open>backward\<close>, called with \<^verbatim>\<open>None\<close> as upstream gradient, returns \<^verbatim>\<open>(None, None)\<close> for
  every context and leaves the heap as it was: no product is computed or allocated.
\<close>

theorem MulConstant_opt_backward_None:
  "\<not> materialize_grads (fst (MulConstant_opt_forward ctx0 t c h0)) \<and>
   MulConstant_opt_backward ctx None h = Inr ([None, None], h)"
  by (simp add: MulConstant_opt_backward_def MulConstant_forward_ctx)

theorem MulConstant_opt_backward_None_witness:
  "\<not> materialize_grads (fst (MulConstant_opt_forward ex_ctx ex_input 3 ex_heap)) \<and>
   MulConstant_opt_backward (fst (MulConstant_opt_forward ex_ctx ex_input 3 ex_heap)) None ex_heap
     = Inr ([None, None], ex_heap)"
  using MulConstant_opt_backward_None
    [of ex_ctx ex_input 3 ex_heap "fst (MulConstant_opt_forward ex_ctx ex_input 3 ex_heap)" ex_heap]
  by simp

text \<open>
  C5: whenever \<^verbatim>\<open>LinearFunction.backward\<close> returns, every position \<open>i\<close> among the three
  forward inputs whose flag \<^verbatim>\<open>needs_input_grad[i]\<close> is false holds \<^verbatim>\<open>None\<close>; whenever
  \<^verbatim>\<open>MulConstant.backward\<close> (either variant) returns, the position of the constant holds
  \<^verbatim>\<open>None\<close>.
\<close>

theorem backward_None_when_not_needed:
  "(LinearFunction_backward ctx g h = Inr (gs, h') \<and> i < 3 \<and>
      i < length (needs_input_grad ctx) \<and> \<not> needs_input_grad ctx ! i
      \<longrightarrow> i < length gs \<and> gs ! i = None) \<and>
   (MulConstant_backward ctx2 go2 h2 = Inr (gs2, h2') \<longrightarrow> length gs2 = 2 \<and> gs2 ! 1 = None) \<and>
   (MulConstant_opt_backward ctx3 go3 h3 = Inr (gs3, h3') \<longrightarrow> length gs3 = 2 \<and> gs3 ! 1 = None)"
proof (intro conjI impI)
  assume a: "LinearFunction_backward ctx g h = Inr (gs, h') \<and> i < 3 \<and>
      i < length (needs_input_grad ctx) \<and> \<not> needs_input_grad ctx ! i"
  then have b: "LinearFunction_backward ctx g h = Inr (gs, h')" by simp
  from a have "i = 0 \<or> i = 1 \<or> i = 2" by auto
  with a LinearFunction_backward_slots(3-5) [OF b] show "gs ! i = None" by blast
  from a LinearFunction_backward_slots(1) [OF b] show "i < length gs" by simp
next
  assume a: "MulConstant_backward ctx2 go2 h2 = Inr (gs2, h2')"
  then obtain r where "gs2 = [Some r, None]" by (rule MulConstant_backward_Inr)
  then show "length gs2 = 2" "gs2 ! 1 = None" by simp_all
next
  assume a: "MulConstant_opt_backward ctx3 go3 h3 = Inr (gs3, h3')"
  from MulConstant_opt_backward_Inr [OF a] show "length gs3 = 2" "gs3 ! 1 = None" by simp_all
qed

theorem backward_None_when_not_needed_witness:
  "LinearFunction_backward (ex_ctx1\<lparr>needs_input_grad := [True, False, True]\<rparr>) ex_grad ex_heap1
     = Inr ([Some \<lparr>storage = 5, offset = 0, sizes = [2, 2], strides = [2, 1]\<rparr>, None,
             Some \<lparr>storage = 6, offset = 0, sizes = [3], strides = [1]\<rparr>],
            ex_heap1 @ [[2, 2, 2, 2], [2, 2, 2]]) \<and>
   (1::nat) < 3 \<and> 1 < length (needs_input_grad (ex_ctx1\<lparr>needs_input_grad := [True, False, True]\<rparr>)) \<and>
   \<not> needs_input_grad (ex_ctx1\<lparr>needs_input_grad := [True, False, True]\<rparr>) ! 1 \<and>
   [Some \<lparr>storage = 5, offset = 0, sizes = [2, 2], strides = [2, 1]\<rparr>, None,
    Some \<lparr>storage = 6, offset = 0, sizes = [3], strides = [1]\<rparr>] ! 1 = None \<and>
   MulConstant_backward (fst (MulConstant_forward ex_ctx ex_input 3 ex_heap)) (Some ex_grad) ex_heap
     = Inr ([Some \<lparr>storage = 4, offset = 0, sizes = [2, 3], strides = [3, 1]\<rparr>, None],
            ex_heap @ [[3, 3, 3, 3, 3, 3]]) \<and>
   [Some \<lparr>storage = 4, offset = 0, sizes = [2, 3], strides = [3, 1]\<rparr>, None] ! 1 = None \<and>
   MulConstant_opt_backward (fst (MulConstant_opt_forward ex_ctx ex_input 3 ex_heap)) None ex_heap
     = Inr ([None, None], ex_heap) \<and>
   [None :: tensor option, None] ! 1 = None"
  using backward_None_when_not_needed
    [of "ex_ctx1\<lparr>needs_input_grad := [True, False, True]\<rparr>" ex_grad ex_heap1
        "[Some \<lparr>storage = 5, offset = 0, sizes = [2, 2], strides = [2, 1]\<rparr>, None,
          Some \<lparr>storage = 6, offset = 0, sizes = [3], strides = [1]\<rparr>]"
        "ex_heap1 @ [[2, 2, 2, 2], [2, 2, 2]]" 1
        "fst (MulConstant_forward ex_ctx ex_input 3 ex_heap)" "Some ex_grad" ex_heap
        "[Some \<lparr>storage = 4, offset = 0, sizes = [2, 3], strides = [3, 1]\<rparr>, None]"
        "ex_heap @ [[3, 3, 3, 3, 3, 3]]"
        "fst (MulConstant_opt_forward ex_ctx ex_input 3 ex_heap)" None ex_heap "[None, None]" ex_heap]
    ex_backward_partial ex_mul_backward(1)
  by (simp add: MulConstant_opt_backward_def)

text \<open>
  C6: every tuple \<^verbatim>\<open>LinearFunction.backward\<close> returns has three components and every tuple
  \<^verbatim>\<open>MulConstant.backward\<close> returns has two. Called on the context left by \<^verbatim>\<open>forward\<close> with
  an upstream gradient of the shape of the output, \<^verbatim>\<open>LinearFunction.backward\<close> does return,
  and its components follow the order of the forward inputs: the first has the shape of the
  input, the second the shape of the weight, the third is present only with a bias and has
  one entry per output column. \<^verbatim>\<open>MulConstant.backward\<close> returns the tensor gradient first and
  \<^verbatim>\<open>None\<close> for the constant second.
\<close>

theorem backward_arity:
  "(LinearFunction_backward ctx g h = Inr (gs, h') \<longrightarrow> length gs = 3) \<and>
   (MulConstant_backward ctxm gom hm = Inr (gsm, hm') \<longrightarrow> length gsm = 2) \<and>
   (MulConstant_opt_backward ctxo goo ho = Inr (gso, ho') \<longrightarrow> length gso = 2) \<and>
   (LinearFunction_forward ctxf input weight bias hf = Inr (ctxb, out, hb) \<and>
      sizes gout = sizes out \<and> 1 < length (needs_input_grad ctxf) \<and>
      (bias \<noteq> None \<longrightarrow> 2 < length (needs_input_grad ctxf))
      \<longrightarrow> (\<exists>gi gw gb hres. LinearFunction_backward ctxb gout hbk = Inr ([gi, gw, gb], hres) \<and>
             (\<forall>t. gi = Some t \<longrightarrow> sizes t = sizes input) \<and>
             (\<forall>t. gw = Some t \<longrightarrow> sizes t = sizes weight) \<and>
             (\<forall>t. gb = Some t \<longrightarrow> bias \<noteq> None \<and> sizes t = tl (sizes out)))) \<and>
   (\<exists>r hres. MulConstant_backward (fst (MulConstant_forward ctxc tc c hc)) (Some gc) hc'
              = Inr ([Some r, None], hres) \<and> sizes r = sizes gc) \<and>
   (\<exists>gi hres. MulConstant_opt_backward (fst (MulConstant_opt_forward ctxc tc c hc)) goc hc'
              = Inr ([gi, None], hres))"
proof (intro conjI impI)
  assume "LinearFunction_backward ctx g h = Inr (gs, h')"
  then show "length gs = 3" by (rule LinearFunction_backward_slots(1))
next
  assume "MulConstant_backward ctxm gom hm = Inr (gsm, hm')"
  then obtain r where "gsm = [Some r, None]" by (rule MulConstant_backward_Inr)
  then show "length gsm = 2" by simp
next
  assume a: "MulConstant_opt_backward ctxo goo ho = Inr (gso, ho')"
  from MulConstant_opt_backward_Inr [OF a] show "length gso = 2" by simp
next
  assume a: "LinearFunction_forward ctxf input weight bias hf = Inr (ctxb, out, hb) \<and>
      sizes gout = sizes out \<and> 1 < length (needs_input_grad ctxf) \<and>
      (bias \<noteq> None \<longrightarrow> 2 < length (needs_input_grad ctxf))"
  then have fw: "LinearFunction_forward ctxf input weight bias hf = Inr (ctxb, out, hb)" by simp
  from fw obtain m k n where s: "sizes input = [m, k]" "sizes weight = [n, k]" "sizes out = [m, n]"
    "ctxb = ctxf\<lparr>saved_tensors := [Some input, Some weight, bias]\<rparr>"
    by (rule LinearFunction_forward_Inr)
  have sv: "saved_tensors ctxb = [Some input, Some weight, bias]"
    and nig: "needs_input_grad ctxb = needs_input_grad ctxf"
    by (simp_all add: s(4))
  from a s(3) have g: "sizes gout = [m, n]" by simp
  from a have n1: "1 < length (needs_input_grad ctxb)"
    and n2: "bias \<noteq> None \<Longrightarrow> 2 < length (needs_input_grad ctxb)"
    by (simp_all add: nig)
  from LinearFunction_backward_total [OF sv s(1,2) g n1 n2, where h = hbk]
  obtain gi gw gb hres where b: "LinearFunction_backward ctxb gout hbk = Inr ([gi, gw, gb], hres)"
    "\<forall>t. gi = Some t \<longrightarrow> sizes t = [m, k]" "\<forall>t. gw = Some t \<longrightarrow> sizes t = [n, k]"
    "\<forall>t. gb = Some t \<longrightarrow> sizes t = [n]"
    by blast
  have "gb \<noteq> None \<Longrightarrow> bias \<noteq> None"
    using LinearFunction_backward_slots(5) [OF b(1)] by (simp add: sv)
  with b s show "\<exists>gi gw gb hres. LinearFunction_backward ctxb gout hbk = Inr ([gi, gw, gb], hres) \<and>
             (\<forall>t. gi = Some t \<longrightarrow> sizes t = sizes input) \<and>
             (\<forall>t. gw = Some t \<longrightarrow> sizes t = sizes weight) \<and>
             (\<forall>t. gb = Some t \<longrightarrow> bias \<noteq> None \<and> sizes t = tl (sizes out))"
    by auto
next
  from tensor_mul_value [of gc c hc'] obtain r hres where
    "tensor_mul gc c hc' = (r, hres)" "sizes r = sizes gc" by blast
  then show "\<exists>r hres. MulConstant_backward (fst (MulConstant_forward ctxc tc c hc)) (Some gc) hc'
              = Inr ([Some r, None], hres) \<and> sizes r = sizes gc"
    by (simp add: MulConstant_backward_def MulConstant_forward_ctx)
next
  show "\<exists>gi hres. MulConstant_opt_backward (fst (MulConstant_opt_forward ctxc tc c hc)) goc hc'
              = Inr ([gi, None], hres)"
  proof (cases goc)
    case None
    then show ?thesis by (simp add: MulConstant_opt_backward_def)
  next
    case (Some g)
    obtain r hres where "tensor_mul g c hc' = (r, hres)" by (cases "tensor_mul g c hc'")
    with Some show ?thesis
      by (simp add: MulConstant_opt_backward_def MulConstant_forward_ctx)
  qed
qed

theorem backward_arity_witness:
  "LinearFunction_backward ex_ctx1 ex_grad ex_heap1 = Inr (ex_grads, ex_heap2) \<and>
   length ex_grads = 3 \<and>
   MulConstant_backward (fst (MulConstant_forward ex_ctx ex_input 3 ex_heap)) (Some ex_grad) ex_heap
     = Inr ([Some \<lparr>storage = 4, offset = 0, sizes = [2, 3], strides = [3, 1]\<rparr>, None],
            ex_heap @ [[3, 3, 3, 3, 3, 3]]) \<and>
   MulConstant_opt_backward (fst (MulConstant_opt_forward ex_ctx ex_input 3 ex_heap)) None ex_heap
     = Inr ([None, None], ex_heap) \<and>
   LinearFunction_forward ex_ctx ex_input ex_weight (Some ex_bias) ex_heap
     = Inr (ex_ctx1, ex_out, ex_heap1) \<and>
   sizes ex_grad = sizes ex_out \<and> 1 < length (needs_input_grad ex_ctx) \<and>
   2 < length (needs_input_grad ex_ctx) \<and>
   (\<exists>gi gw gb hres. LinearFunction_backward ex_ctx1 ex_grad ex_heap1 = Inr ([gi, gw, gb], hres) \<and>
      (\<forall>t. gi = Some t \<longrightarrow> sizes t = sizes ex_input) \<and>
      (\<forall>t. gw = Some t \<longrightarrow> sizes t = sizes ex_weight) \<and>
      (\<forall>t. gb = Some t \<longrightarrow> Some ex_bias \<noteq> None \<and> sizes t = tl (sizes ex_out)))"
proof -
  note T = backward_arity [where ctx = ex_ctx1 and g = ex_grad and h = ex_heap1
        and gs = ex_grads and h' = ex_heap2
        and ctxf = ex_ctx and input = ex_input and weight = ex_weight and bias = "Some ex_bias"
        and hf = ex_heap and ctxb = ex_ctx1 and out = ex_out and hb = ex_heap1
        and gout = ex_grad and hbk = ex_heap1]
  have a: "LinearFunction_forward ex_ctx ex_input ex_weight (Some ex_bias) ex_heap
      = Inr (ex_ctx1, ex_out, ex_heap1) \<and>
    sizes ex_grad = sizes ex_out \<and> 1 < length (needs_input_grad ex_ctx) \<and>
    (Some ex_bias \<noteq> None \<longrightarrow> 2 < length (needs_input_grad ex_ctx))"
    using ex_forward by (simp add: ex_grad_def ex_out_def ex_ctx_def)
  have l: "length ex_grads = 3"
    using T [THEN conjunct1] ex_backward by simp
  have o: "MulConstant_opt_backward (fst (MulConstant_opt_forward ex_ctx ex_input 3 ex_heap)) None ex_heap
     = Inr ([None, None], ex_heap)"
    by (simp add: MulConstant_opt_backward_def)
  from a T [THEN conjunct2, THEN conjunct2, THEN conjunct2, THEN conjunct1, THEN mp, OF a]
    ex_backward l ex_mul_backward(1) o
  show ?thesis by blast
qed

text \<open>
  C7: no \<^verbatim>\<open>backward\<close> writes into the upstream gradient: when \<^verbatim>\<open>LinearFunction.backward\<close> or
  \<^verbatim>\<open>MulConstant.backward\<close> (either variant) returns, the storage of \<^verbatim>\<open>grad_output\<close> and every
  element read through it are what they were on entry.
\<close>

theorem backward_keeps_grad_output:
  "(LinearFunction_backward ctx g h = Inr (gs, h') \<and> storage g < length h
      \<longrightarrow> h' ! storage g = h ! storage g \<and> (\<forall>idx. get h' g idx = get h g idx)) \<and>
   (MulConstant_backward ctxm (Some gm) hm = Inr (gsm, hm') \<and> storage gm < length hm
      \<longrightarrow> hm' ! storage gm = hm ! storage gm \<and> (\<forall>idx. get hm' gm idx = get hm gm idx)) \<and>
   (MulConstant_opt_backward ctxo (Some go) ho = Inr (gso, ho') \<and> storage go < length ho
      \<longrightarrow> ho' ! storage go = ho ! storage go \<and> (\<forall>idx. get ho' go idx = get ho go idx))"
proof (intro conjI impI)
  assume a: "LinearFunction_backward ctx g h = Inr (gs, h') \<and> storage g < length h"
  then obtain hs where "h' = h @ hs"
    using LinearFunction_backward_slots(2) by blast
  with a show "h' ! storage g = h ! storage g" "\<forall>idx. get h' g idx = get h g idx"
    by (simp_all add: nth_append get_append)
next
  assume a: "MulConstant_backward ctxm (Some gm) hm = Inr (gsm, hm') \<and> storage gm < length hm"
  then have "MulConstant_backward ctxm (Some gm) hm = Inr (gsm, hm')" by simp
  then obtain x where "hm' = hm @ [x]" by (rule MulConstant_backward_Inr)
  with a show "hm' ! storage gm = hm ! storage gm" "\<forall>idx. get hm' gm idx = get hm gm idx"
    by (simp_all add: nth_append get_append)
next
  assume a: "MulConstant_opt_backward ctxo (Some go) ho = Inr (gso, ho') \<and> storage go < length ho"
  then obtain hs where "ho' = ho @ hs"
    using MulConstant_opt_backward_Inr by blast
  with a show "ho' ! storage go = ho ! storage go" "\<forall>idx. get ho' go idx = get ho go idx"
    by (simp_all add: nth_append get_append)
qed

theorem backward_keeps_grad_output_witness:
  "(LinearFunction_backward ex_ctx1 ex_grad ex_heap1 = Inr (ex_grads, ex_heap2) \<and>
      storage ex_grad < length ex_heap1) \<and>
   ex_heap2 ! storage ex_grad = ex_heap1 ! storage ex_grad \<and>
   (MulConstant_backward (fst (MulConstant_forward ex_ctx ex_input 3 ex_heap)) (Some ex_grad) ex_heap
      = Inr ([Some \<lparr>storage = 4, offset = 0, sizes = [2, 3], strides = [3, 1]\<rparr>, None],
             ex_heap @ [[3, 3, 3, 3, 3, 3]]) \<and>
      storage ex_grad < length ex_heap) \<and>
   (ex_heap @ [[3, 3, 3, 3, 3, 3]]) ! storage ex_grad = ex_heap ! storage ex_grad \<and>
   (MulConstant_opt_backward (fst (MulConstant_opt_forward ex_ctx ex_input 3 ex_heap)) (Some ex_grad) ex_heap
      = Inr ([Some \<lparr>storage = 4, offset = 0, sizes = [2, 3], strides = [3, 1]\<rparr>, None],
             ex_heap @ [[3, 3, 3, 3, 3, 3]]) \<and>
      storage ex_grad < length ex_heap)"
proof -
  note T = backward_keeps_grad_output [where ctx = ex_ctx1 and g = ex_grad and h = ex_heap1
      and gs = ex_grads and h' = ex_heap2
      and ctxm = "fst (MulConstant_forward ex_ctx ex_input 3 ex_heap)" and gm = ex_grad
      and hm = ex_heap
      and gsm = "[Some \<lparr>storage = 4, offset = 0, sizes = [2, 3], strides = [3, 1]\<rparr>, None]"
      and hm' = "ex_heap @ [[3, 3, 3, 3, 3, 3]]"
      and ctxo = "fst (MulConstant_opt_forward ex_ctx ex_input 3 ex_heap)" and go = ex_grad
      and ho = ex_heap
      and gso = "[Some \<lparr>storage = 4, offset = 0, sizes = [2, 3], strides = [3, 1]\<rparr>, None]"
      and ho' = "ex_heap @ [[3, 3, 3, 3, 3, 3]]"]
  have l: "storage ex_grad < length ex_heap1" "storage ex_grad < length ex_heap"
    by (simp_all add: ex_grad_def ex_heap1_def ex_heap_def)
  from T ex_backward ex_mul_backward l show ?thesis by blast
qed

text \<open>
  C8: on every present upstream gradient the optimised and the plain \<^verbatim>\<open>MulConstant\<close> agree:
  both \<^verbatim>\<open>backward\<close> functions return the same pair, the gradient scaled by the constant and
  \<^verbatim>\<open>None\<close>, and both \<^verbatim>\<open>forward\<close> functions return the same output. They differ on an absent
  gradient only: the plain variant raises \<^verbatim>\<open>TypeError\<close>, the optimised one returns
  \<^verbatim>\<open>(None, None)\<close>.
\<close>

theorem MulConstant_variants_agree:
  fixes h :: "'a::semiring_0 heap"
  shows "MulConstant_opt_backward (fst (MulConstant_opt_forward ctx t c h0)) (Some g) h
           = MulConstant_backward (fst (MulConstant_forward ctx t c h0)) (Some g) h \<and>
         (\<exists>r h'. MulConstant_backward (fst (MulConstant_forward ctx t c h0)) (Some g) h
            = Inr ([Some r, None], h') \<and> sizes r = sizes g \<and>
            (\<forall>idx \<in> set (indices (sizes g)). get h' r idx = get h g idx * c)) \<and>
         MulConstant_backward (fst (MulConstant_forward ctx t c h0)) None h = Inl TypeError \<and>
         MulConstant_opt_backward (fst (MulConstant_opt_forward ctx t c h0)) None h
           = Inr ([None, None], h) \<and>
         snd (MulConstant_opt_forward ctx t c h0) = snd (MulConstant_forward ctx t c h0)"
proof -
  from tensor_mul_value [of g c h] obtain r h' where
    "tensor_mul g c h = (r, h')" "sizes r = sizes g"
    "\<forall>idx \<in> set (indices (sizes g)). get h' r idx = get h g idx * c"
    by blast
  then show ?thesis
    by (simp add: MulConstant_backward_def MulConstant_opt_backward_def MulConstant_forward_ctx
        MulConstant_forward_def MulConstant_opt_forward_def split: prod.splits)
qed

theorem MulConstant_variants_agree_witness:
  "MulConstant_opt_backward (fst (MulConstant_opt_forward ex_ctx ex_input 3 ex_heap)) (Some ex_grad) ex_heap
     = MulConstant_backward (fst (MulConstant_forward ex_ctx ex_input 3 ex_heap)) (Some ex_grad) ex_heap \<and>
   [1, 2] \<in> set (indices (sizes ex_grad)) \<and>
   (\<exists>r h'. MulConstant_backward (fst (MulConstant_forward ex_ctx ex_input 3 ex_heap)) (Some ex_grad) ex_heap
      = Inr ([Some r, None], h') \<and> get h' r [1, 2] = get ex_heap ex_grad [1, 2] * 3)"
proof -
  have "[1, 2] \<in> set (indices (sizes ex_grad))"
    by (simp add: ex_grad_def in_indices_2d)
  then show ?thesis
    using MulConstant_variants_agree [of ex_ctx ex_input 3 ex_heap ex_grad ex_heap]
    by blast
qed

text \<open>
  C9: after a \<^verbatim>\<open>forward\<close> without bias, every tuple \<^verbatim>\<open>LinearFunction.backward\<close> returns has
  \<^verbatim>\<open>None\<close> in third place, whatever the flags \<^verbatim>\<open>needs_input_grad\<close> are; and it does return
  for an upstream gradient of the shape of the output as soon as the first two flags exist,
  a third flag being neither needed nor read.
\<close>

theorem no_bias_no_grad_bias:
  assumes "LinearFunction_forward ctx input weight None hf = Inr (ctxb, out, hb)"
  shows "(\<forall>gs h'. LinearFunction_backward (ctxb\<lparr>needs_input_grad := nig\<rparr>) g h = Inr (gs, h')
            \<longrightarrow> length gs = 3 \<and> gs ! 2 = None) \<and>
         (sizes g = sizes out \<and> 1 < length nig
            \<longrightarrow> (\<exists>gi gw h'. LinearFunction_backward (ctxb\<lparr>needs_input_grad := nig\<rparr>) g h
                    = Inr ([gi, gw, None], h')))"
proof -
  from assms obtain m k n where s: "sizes input = [m, k]" "sizes weight = [n, k]"
    "sizes out = [m, n]" "ctxb = ctx\<lparr>saved_tensors := [Some input, Some weight, None]\<rparr>"
    by (rule LinearFunction_forward_Inr)
  let ?c = "ctxb\<lparr>needs_input_grad := nig\<rparr>"
  have sv: "saved_tensors ?c = [Some input, Some weight, None]"
    by (simp add: s(4))
  have part: "length gs = 3 \<and> gs ! 2 = None"
    if b: "LinearFunction_backward ?c g h = Inr (gs, h')" for gs h'
    using LinearFunction_backward_slots(1) [OF b] LinearFunction_backward_slots(5) [OF b]
    by (cases "gs ! 2") (simp_all add: sv)
  have tot: "\<exists>gi gw h'. LinearFunction_backward ?c g h = Inr ([gi, gw, None], h')"
    if t: "sizes g = sizes out \<and> 1 < length nig"
  proof -
    from t s(3) have g: "sizes g = [m, n]" by simp
    from t have n1: "1 < length (needs_input_grad ?c)" by simp
    from LinearFunction_backward_total [OF sv s(1,2) g n1, where h = h]
    obtain gi gw gb h' where b: "LinearFunction_backward ?c g h = Inr ([gi, gw, gb], h')"
      by blast
    from part [OF b] have "gb = None" by simp
    with b show ?thesis by blast
  qed
  from part tot show ?thesis by blast
qed

theorem no_bias_no_grad_bias_witness:
  "LinearFunction_forward (ex_ctx\<lparr>needs_input_grad := [True, True]\<rparr>) ex_input ex_weight None ex_heap
     = Inr (ex_ctx_nb, ex_out, ex_heap_nb) \<and>
   sizes ex_grad = sizes ex_out \<and> 1 < length [True, True] \<and>
   (\<exists>gi gw h'. LinearFunction_backward (ex_ctx_nb\<lparr>needs_input_grad := [True, True]\<rparr>) ex_grad ex_heap_nb
      = Inr ([gi, gw, None], h'))"
proof -
  have s: "sizes ex_grad = sizes ex_out \<and> 1 < length [True, True]"
    by (simp add: ex_grad_def ex_out_def)
  from no_bias_no_grad_bias [OF ex_forward_nb, where g = ex_grad and nig = "[True, True]"
      and h = ex_heap_nb, THEN conjunct2, THEN mp, OF s] s ex_forward_nb
  show ?thesis by blast
qed

text \<open>
  C10: \<^verbatim>\<open>LinearFunction.forward\<close> leaves every storage that was allocated before the call
  as it was, so input, weight and bias hold the same values afterwards; the output lives in
  the one storage the call allocates, which is the only one the in-place addition writes;
  and the set of tensors declared dirty is unchanged.
\<close>

theorem LinearFunction_forward_frame:
  assumes "LinearFunction_forward ctx input weight bias h = Inr (ctxb, out, hb)"
  shows "(\<forall>a<length h. hb ! a = h ! a) \<and> length hb = Suc (length h) \<and>
         storage out = length h \<and> dirty_tensors ctxb = dirty_tensors ctx \<and>
         (\<forall>t. (t = input \<or> t = weight \<or> bias = Some t) \<and> storage t < length h
            \<longrightarrow> hb ! storage t = h ! storage t \<and> (\<forall>idx. get hb t idx = get h t idx))"
proof -
  from assms obtain x where s: "storage out = length h" "hb = h @ [x]"
    "ctxb = ctx\<lparr>saved_tensors := [Some input, Some weight, bias]\<rparr>"
    by (rule LinearFunction_forward_Inr)
  then show ?thesis
    by (simp add: nth_append get_append)
qed

theorem LinearFunction_forward_frame_witness:
  "LinearFunction_forward ex_ctx ex_input ex_weight (Some ex_bias) ex_heap
     = Inr (ex_ctx1, ex_out, ex_heap1) \<and>
   storage ex_out = length ex_heap \<and> length ex_heap1 = Suc (length ex_heap) \<and>
   storage ex_input < length ex_heap \<and>
   ex_heap1 ! storage ex_input = ex_heap ! storage ex_input \<and>
   storage ex_weight < length ex_heap \<and>
   get ex_heap1 ex_weight [2, 1] = get ex_heap ex_weight [2, 1] \<and>
   storage ex_bias < length ex_heap \<and>
   ex_heap1 ! storage ex_bias = ex_heap ! storage ex_bias"
proof -
  have l: "storage ex_bias < length ex_heap" "storage ex_input < length ex_heap"
    "storage ex_weight < length ex_heap"
    by (simp_all add: ex_bias_def ex_input_def ex_weight_def ex_heap_def)
  from LinearFunction_forward_frame [OF ex_forward] l ex_forward
  show ?thesis by blast
qed

end
